theory Spec2Isabelle
  imports Main "HOL-Library.Multiset"
begin

section \<open>Identifiers and the iterator name generator (codegen.cc)\<close>

text \<open>
  Modelled from the spec: the identifier type of the affine-set library (\<open>isl::id\<close>) and its
  context handle (\<open>isl::ctx\<close>) are not part of the sources. The data model describes an
  Identifier as an opaque, context-scoped symbolic name with value equality, so an identifier is
  the pair of the context it lives in and its name, and two identifiers are equal exactly when
  both components are: a context holds one identifier per name, and building an identifier
  from a name that the context already has gives that identifier again. A context is a handle,
  here a number.
\<close>

type_synonym isl_ctx = nat

datatype isl_id = Isl_id (id_ctx: isl_ctx) (id_name: string)

text \<open>
  Modelled from the spec: \<open>ss << prefix << i\<close> writes the prefix followed by the decimal
  rendering of the C \<open>int\<close> \<open>i\<close> (the stream operators belong to the C++ standard library):
  the digits of the absolute value, most significant first, with no leading zero, after a minus
  sign for a negative value.
\<close>

definition digit_char :: "nat \<Rightarrow> char" where
  "digit_char d = ''0123456789'' ! d"

function ostream_nat :: "nat \<Rightarrow> string" where
  "ostream_nat k =
     (if k < 10 then [digit_char k] else ostream_nat (k div 10) @ [digit_char (k mod 10)])"
  by pat_completeness auto
termination
  by (relation "measure id") auto

definition ostream_int :: "int \<Rightarrow> string" where
  "ostream_int i =
     (if i < 0 then CHR ''-'' # ostream_nat (nat (- i)) else ostream_nat (nat i))"

text \<open>
  \<open>Codegen::makeLoopIterators(ctx, n, prefix)\<close>: the loop \<open>for (int i = 0; i < n; ++i)\<close>
  appends the identifier named \<open>prefix\<close> followed by \<open>i\<close> to the vector \<open>loopIterators\<close>,
  and the vector is returned as a list of identifiers. The counter stays below \<open>n\<close>, so
  \<open>++i\<close> never leaves the range of a C \<open>int\<close> and mathematical integers model it exactly.
  The source has no check on \<open>n\<close> and no failing branch.
\<close>

function makeLoopIterators_loop ::
  "isl_ctx \<Rightarrow> int \<Rightarrow> string \<Rightarrow> int \<Rightarrow> isl_id list \<Rightarrow> isl_id list" where
  "makeLoopIterators_loop ctx n prefix i loopIterators =
     (if i < n
      then makeLoopIterators_loop ctx n prefix (i + 1)
             (loopIterators @ [Isl_id ctx (prefix @ ostream_int i)])
      else loopIterators)"
  by pat_completeness auto
termination
  by (relation "measure (\<lambda>(ctx, n, prefix, i, loopIterators). nat (n - i))") auto

definition makeLoopIterators :: "isl_ctx \<Rightarrow> int \<Rightarrow> string \<Rightarrow> isl_id list" where
  "makeLoopIterators ctx n prefix = makeLoopIterators_loop ctx n prefix 0 []"

text \<open>
  Reading a decimal rendering back: the value of a digit character and the value of a digit
  string. Used only to state that \<open>ostream_nat\<close> is the decimal rendering.
\<close>

definition digit_val :: "char \<Rightarrow> nat" where
  "digit_val c = of_char c - 48"

fun parse_nat :: "nat \<Rightarrow> string \<Rightarrow> nat" where
  "parse_nat acc [] = acc"
| "parse_nat acc (c # cs) = parse_nat (10 * acc + digit_val c) cs"


section \<open>The affine-set algebra used by the matcher\<close>

text \<open>
  Modelled from the spec: the affine-set library is consumed, not built. A Domain
  (\<open>isl::union_set\<close>) is a set of statement instances, pairs of a statement identifier and
  integer instance coordinates. It is kept as the library keeps it, as a collection of
  per-statement components (\<open>isl::set\<close>), each with its tuple identifier and its set of
  points; the list gives the order in which \<open>foreach_set\<close> visits the components.
  \<open>instances\<close> is the set of statement instances a Domain denotes.
\<close>

type_synonym point = "int list"

type_synonym stmt_instance = "isl_id \<times> point"

record isl_set =
  tuple_id :: isl_id
  points :: "point set"

type_synonym union_set = "isl_set list"

definition instances :: "union_set \<Rightarrow> stmt_instance set" where
  "instances D = (\<Union>s \<in> set D. {tuple_id s} \<times> points s)"

text \<open>
  Modelled from the spec: \<open>update.unite(set)\<close> is set union. The points of \<open>set\<close> join the
  component of the same tuple identifier when there is one, and form a new component otherwise.
  \<open>union_set_union\<close> is the union of two Domains.
\<close>

fun unite :: "union_set \<Rightarrow> isl_set \<Rightarrow> union_set" where
  "unite [] s = [s]"
| "unite (t # ts) s =
     (if tuple_id t = tuple_id s then t\<lparr>points := points t \<union> points s\<rparr> # ts
      else t # unite ts s)"

definition union_set_union :: "union_set \<Rightarrow> union_set \<Rightarrow> union_set" where
  "union_set_union D1 D2 = foldl unite D1 D2"

text \<open>
  Modelled from the spec: relations (\<open>isl::union_map\<close>) are sets of pairs, and a Schedule
  Prefix (\<open>isl::multi_union_pw_aff\<close>) is a function from statement instances to the coordinates
  fixed above a tree position, defined on part of the instances. \<open>intersect_domain\<close>
  restricts a relation to a Domain, \<open>union_map_from\<close> is the graph of a prefix,
  \<open>apply_domain\<close> applies a map on the domain side of a relation, and \<open>is_single_valued\<close>
  holds when each input is related to at most one output.
\<close>

type_synonym union_map = "(stmt_instance \<times> stmt_instance) set"

type_synonym multi_union_pw_aff = "stmt_instance \<rightharpoonup> point"

definition intersect_domain :: "union_map \<Rightarrow> union_set \<Rightarrow> union_map" where
  "intersect_domain R D = {(x, y). (x, y) \<in> R \<and> x \<in> instances D}"

definition union_map_from :: "multi_union_pw_aff \<Rightarrow> (stmt_instance \<times> point) set" where
  "union_map_from f = {(x, z). f x = Some z}"

definition apply_domain :: "('a \<times> 'b) set \<Rightarrow> ('a \<times> 'c) set \<Rightarrow> ('c \<times> 'b) set" where
  "apply_domain R M = {(z, y). \<exists>x. (x, y) \<in> R \<and> (x, z) \<in> M}"

definition is_single_valued :: "('a \<times> 'b) set \<Rightarrow> bool" where
  "is_single_valued R = (\<forall>x y y'. (x, y) \<in> R \<longrightarrow> (x, y') \<in> R \<longrightarrow> y = y')"


section \<open>Expression trees and the statement registry\<close>

text \<open>
  Modelled from the spec: the intermediate representation of the front end (Halide) is not
  part of the sources. Expressions are trees; a statement is reached through a handle
  (\<open>Halide::Internal::Stmt\<close>) that is either undefined or points to a node at an address.
  \<open>same_as\<close> compares the addresses, never the contents; \<open>as<T>()\<close> gives the node when
  it is of kind \<open>T\<close> and a null pointer otherwise.
\<close>

datatype Expr =
    IntImm int
  | Variable string
  | Add Expr Expr
  | Sub Expr Expr
  | Mul Expr Expr
  | Div Expr Expr
  | Min_expr Expr Expr
  | Max_expr Expr Expr
  | Call string "Expr list"

datatype StmtNode =
    Provide string "Expr list" "Expr list"
  | Evaluate Expr
  | Store string Expr Expr
  | Free string

datatype Stmt = Stmt_undefined | Stmt_at nat StmtNode

fun same_as :: "Stmt \<Rightarrow> Stmt \<Rightarrow> bool" where
  "same_as Stmt_undefined Stmt_undefined = True"
| "same_as (Stmt_at a _) (Stmt_at b _) = (a = b)"
| "same_as _ _ = False"

fun as_Provide :: "Stmt \<Rightarrow> (string \<times> Expr list \<times> Expr list) option" where
  "as_Provide (Stmt_at _ (Provide name vals args)) = Some (name, vals, args)"
| "as_Provide _ = None"

fun as_Call :: "Expr \<Rightarrow> (string \<times> Expr list) option" where
  "as_Call (Call name args) = Some (name, args)"
| "as_Call _ = None"

fun as_Add :: "Expr \<Rightarrow> (Expr \<times> Expr) option" where
  "as_Add (Add a b) = Some (a, b)"
| "as_Add _ = None"

text \<open>
  Modelled from the spec: the Scop (declared in \<open>scop.h\<close>, which is not part of the sources)
  holds the statement registry \<open>halide.statements\<close>, the reduction catalog
  \<open>halide.reductions\<close> (each entry an update statement and its reduction dims) and the
  body-level reduction relation \<open>body.reductions\<close>.
\<close>

record Reduction =
  update :: Stmt
  dims :: "nat list"

record Scop =
  halide_statements :: "isl_id \<rightharpoonup> Stmt"
  halide_reductions :: "Reduction list"
  body_reductions :: union_map

text \<open>
  The ways a call can fail to return: the registry check \<open>TC_CHECK_EQ\<close> aborts with its
  message and the identifier streamed into it; dereferencing a null pointer and reading the
  first element of an empty vector are undefined in C++, and are results of their own here.
\<close>

datatype error = CheckFailure string isl_id | NullDereference | OutOfBounds


section \<open>The schedule tree matcher\<close>

text \<open>
  \<open>isSupportedReduction\<close>: \<open>stmt.as<Provide>()\<close> is dereferenced without a test, then
  \<open>values[0]\<close> is read and cast to a call; only when the cast succeeds is \<open>args[0]\<close> read
  and cast to an addition.
\<close>

definition isSupportedReduction :: "Stmt \<Rightarrow> error + bool" where
  "isSupportedReduction stmt =
     (case as_Provide stmt of
        None \<Rightarrow> Inl NullDereference
      | Some (name, vals, args) \<Rightarrow>
          (case vals of
             [] \<Rightarrow> Inl OutOfBounds
           | v0 # _ \<Rightarrow>
               (case as_Call v0 of
                  None \<Rightarrow> Inr False
                | Some (f, call_args) \<Rightarrow>
                    (case call_args of
                       [] \<Rightarrow> Inl OutOfBounds
                     | a0 # _ \<Rightarrow> if as_Add a0 \<noteq> None then Inr True else Inr False))))"

text \<open>
  The loop over the reduction catalog in \<open>isReductionUpdateId\<close>: the first entry whose
  update is the same node as \<open>provideNode\<close> sets \<open>reductionDims\<close> and answers true.
\<close>

fun find_update :: "Reduction list \<Rightarrow> Stmt \<Rightarrow> nat list \<Rightarrow> bool \<times> nat list" where
  "find_update [] provideNode reductionDims = (False, reductionDims)"
| "find_update (iup # rest) provideNode reductionDims =
     (if same_as (update iup) provideNode then (True, dims iup)
      else find_update rest provideNode reductionDims)"

text \<open>
  \<open>isReductionUpdateId(id, scop, reductionDims)\<close> returns its answer together with the
  value of the by-reference parameter \<open>reductionDims\<close> after the call.
\<close>

definition isReductionUpdateId ::
  "isl_id \<Rightarrow> Scop \<Rightarrow> nat list \<Rightarrow> error + (bool \<times> nat list)" where
  "isReductionUpdateId i scop reductionDims =
     (case halide_statements scop i of
        None \<Rightarrow> Inl (CheckFailure ''id is not a statement in scop'' i)
      | Some provideNode \<Rightarrow>
          (case isSupportedReduction provideNode of
             Inl e \<Rightarrow> Inl e
           | Inr supported \<Rightarrow>
               if \<not> supported then Inr (False, reductionDims)
               else Inr (find_update (halide_reductions scop) provideNode reductionDims)))"

text \<open>
  \<open>reductionUpdates(domain, scop)\<close>: starting from the empty Domain, \<open>foreach_set\<close> visits
  every component of \<open>domain\<close> and unites the component into \<open>update\<close> when its tuple
  identifier is that of a reduction update. A failure inside the callback ends the call.
\<close>

fun foreach_set :: "Scop \<Rightarrow> isl_set list \<Rightarrow> union_set \<Rightarrow> error + union_set" where
  "foreach_set scop [] upd = Inr upd"
| "foreach_set scop (s # rest) upd =
     (case isReductionUpdateId (tuple_id s) scop [] of
        Inl e \<Rightarrow> Inl e
      | Inr (is_update, reductionDims) \<Rightarrow>
          foreach_set scop rest (if is_update then unite upd s else upd))"

definition reductionUpdates :: "union_set \<Rightarrow> Scop \<Rightarrow> error + union_set" where
  "reductionUpdates D scop = foreach_set scop D []"

definition isSingleReductionWithin ::
  "union_set \<Rightarrow> multi_union_pw_aff \<Rightarrow> Scop \<Rightarrow> bool" where
  "isSingleReductionWithin D prefix scop =
     (let reductions = body_reductions scop;
          reductions = intersect_domain reductions D;
          prefixMap = union_map_from prefix;
          prefixToReduction = apply_domain reductions prefixMap
      in is_single_valued prefixToReduction)"


section \<open>Predicates used to state the properties\<close>

text \<open>
  \<open>provide_shape\<close>: the statement is an assignment node with at least one value, and when
  its first value is a call, the call has at least one argument.
  \<open>classified\<close>: the identifier is answered true by \<open>isReductionUpdateId\<close>.
\<close>

fun provide_shape :: "Stmt \<Rightarrow> bool" where
  "provide_shape (Stmt_at _ (Provide _ (Call _ call_args # _) _)) = (call_args \<noteq> [])"
| "provide_shape (Stmt_at _ (Provide _ (_ # _) _)) = True"
| "provide_shape _ = False"

definition classified :: "Scop \<Rightarrow> isl_id \<Rightarrow> bool" where
  "classified scop i =
     (case isReductionUpdateId i scop [] of Inr (b, _) \<Rightarrow> b | Inl _ \<Rightarrow> False)"


section \<open>A small program region used for concrete evaluation\<close>

text \<open>
  Statement \<open>S\<close> sums \<open>A(i, j)\<close> over \<open>j\<close> into \<open>O(i)\<close>; statement \<open>T\<close> multiplies instead.
  Both are in the reduction catalog. The variants change one component each: a second
  reduction target under the same outer coordinate, a catalog whose entry is an equal copy of
  the node of \<open>S\<close> at another address, and registries whose statement is no assignment, an
  assignment without a value, or an assignment of a call without an argument.
\<close>

definition S_id :: isl_id where "S_id = Isl_id 0 ''S''"

definition T_id :: isl_id where "T_id = Isl_id 0 ''T''"

definition R_id :: isl_id where "R_id = Isl_id 0 ''R''"

definition sum_update :: StmtNode where
  "sum_update = Provide ''O''
     [Call ''ReductionUpdate''
        [Add (Call ''O'' [Variable ''i'']) (Call ''A'' [Variable ''i'', Variable ''j''])]]
     [Variable ''i'']"

definition prod_update :: StmtNode where
  "prod_update = Provide ''P''
     [Call ''ReductionUpdate''
        [Mul (Call ''P'' [Variable ''i'']) (Call ''A'' [Variable ''i'', Variable ''j''])]]
     [Variable ''i'']"

definition S_set :: isl_set where
  "S_set = \<lparr>tuple_id = S_id, points = {[0, 0], [0, 1]}\<rparr>"

definition T_set :: isl_set where
  "T_set = \<lparr>tuple_id = T_id, points = {[0, 0]}\<rparr>"

definition ex_scop :: Scop where
  "ex_scop =
     \<lparr>halide_statements = [S_id \<mapsto> Stmt_at 1 sum_update, T_id \<mapsto> Stmt_at 2 prod_update],
      halide_reductions = [\<lparr>update = Stmt_at 1 sum_update, dims = [1]\<rparr>,
                           \<lparr>update = Stmt_at 2 prod_update, dims = [1]\<rparr>],
      body_reductions = {((S_id, [0, 0]), (R_id, [0])), ((S_id, [0, 1]), (R_id, [0]))}\<rparr>"

definition ex_scop_two_targets :: Scop where
  "ex_scop_two_targets = ex_scop\<lparr>body_reductions :=
      {((S_id, [0, 0]), (R_id, [0])), ((S_id, [0, 1]), (T_id, [0]))}\<rparr>"

definition ex_scop_copy :: Scop where
  "ex_scop_copy =
     ex_scop\<lparr>halide_reductions := [\<lparr>update = Stmt_at 3 sum_update, dims = [1]\<rparr>]\<rparr>"

definition ex_scop_not_provide :: Scop where
  "ex_scop_not_provide =
     ex_scop\<lparr>halide_statements := [S_id \<mapsto> Stmt_at 5 (Evaluate (IntImm 0))]\<rparr>"

definition ex_scop_no_value :: Scop where
  "ex_scop_no_value =
     ex_scop\<lparr>halide_statements := [S_id \<mapsto> Stmt_at 6 (Provide ''O'' [] [Variable ''i''])]\<rparr>"

definition ex_scop_no_argument :: Scop where
  "ex_scop_no_argument =
     ex_scop\<lparr>halide_statements :=
       [S_id \<mapsto> Stmt_at 7 (Provide ''O'' [Call ''f'' []] [Variable ''i''])]\<rparr>"

definition ex_prefix :: multi_union_pw_aff where
  "ex_prefix x = Some (take 1 (snd x))"


section \<open>Properties of the iterator name generator\<close>

declare ostream_nat.simps [simp del]

declare makeLoopIterators_loop.simps [simp del]

lemma digit_val_digit_char: "d < 10 \<Longrightarrow> digit_val (digit_char d) = d"
proof -
  assume "d < 10"
  then have "d \<in> {0, 1, 2, 3, 4, 5, 6, 7, 8, 9}" by auto
  then show ?thesis by (auto simp: digit_val_def digit_char_def)
qed

lemma parse_nat_append: "parse_nat acc (xs @ ys) = parse_nat (parse_nat acc xs) ys"
  by (induction xs arbitrary: acc) auto

text \<open>The rendering is decimal: read back digit by digit, it gives the number again.\<close>

lemma parse_ostream_nat: "parse_nat 0 (ostream_nat k) = k"
proof (induction k rule: ostream_nat.induct)
  case (1 k)
  show ?case
  proof (cases "k < 10")
    case True
    then show ?thesis by (simp add: ostream_nat.simps[of k] digit_val_digit_char)
  next
    case False
    with 1 show ?thesis
      by (simp add: ostream_nat.simps[of k] parse_nat_append digit_val_digit_char)
  qed
qed

lemma digit_char_digit: "d < 10 \<Longrightarrow> digit_char d \<in> set ''0123456789''"
  unfolding digit_char_def by (rule nth_mem) simp

lemma ostream_nat_digits: "set (ostream_nat k) \<subseteq> set ''0123456789''"
proof (induction k rule: ostream_nat.induct)
  case (1 k)
  show ?case
  proof (cases "k < 10")
    case True
    then show ?thesis
      using digit_char_digit[of k] by (simp add: ostream_nat.simps[of k])
  next
    case False
    with 1 show ?thesis
      using digit_char_digit[of "k mod 10"] by (simp add: ostream_nat.simps[of k])
  qed
qed

lemma ostream_nat_eq_iff: "ostream_nat a = ostream_nat b \<longleftrightarrow> a = b"
  by (metis parse_ostream_nat)

lemma ostream_int_of_nat: "ostream_int (int k) = ostream_nat k"
  by (simp add: ostream_int_def)

text \<open>The loop from counter \<open>i\<close> appends the identifiers numbered \<open>i\<close> to \<open>n - 1\<close>.\<close>

lemma makeLoopIterators_loop_eq:
  "makeLoopIterators_loop ctx n prefix i acc =
     acc @ map (\<lambda>k. Isl_id ctx (prefix @ ostream_int k)) [i..n - 1]"
proof (induction ctx n prefix i acc rule: makeLoopIterators_loop.induct)
  case (1 ctx n prefix i acc)
  show ?case
  proof (cases "i < n")
    case True
    then have "[i..n - 1] = i # [i + 1..n - 1]" by (simp add: upto_rec1)
    with True 1 show ?thesis
      by (simp add: makeLoopIterators_loop.simps[of ctx n prefix i acc])
  next
    case False
    then show ?thesis by (simp add: makeLoopIterators_loop.simps[of ctx n prefix i acc])
  qed
qed

lemma upto_of_nat: "[0..int k - 1] = map int [0..<k]"
proof (induction k)
  case 0
  then show ?case by simp
next
  case (Suc k)
  have "[0..int (Suc k) - 1] = [0..int k - 1] @ [int k]"
    by (simp add: upto_rec2)
  with Suc show ?case by simp
qed

lemma upto_as_nats: "0 \<le> n \<Longrightarrow> [0..n - 1] = map int [0..<nat n]"
  using upto_of_nat[of "nat n"] by simp

lemma makeLoopIterators_closed:
  "0 \<le> n \<Longrightarrow> makeLoopIterators ctx n prefix =
     map (\<lambda>k. Isl_id ctx (prefix @ ostream_nat k)) [0..<nat n]"
  by (simp add: makeLoopIterators_def makeLoopIterators_loop_eq upto_as_nats comp_def
      ostream_int_of_nat)

lemma makeLoopIterators_nonpos:
  "n \<le> 0 \<Longrightarrow> makeLoopIterators ctx n prefix = []"
  by (simp add: makeLoopIterators_def makeLoopIterators_loop_eq)

text \<open>
  Claim C7. For a count \<open>n \<ge> 0\<close> and any prefix, \<open>makeLoopIterators\<close> returns exactly \<open>n\<close>
  identifiers in order; the identifier at index \<open>i < n\<close> lives in the given context and is
  named by the prefix followed by the decimal rendering of \<open>i\<close> (what follows the prefix
  consists of decimal digits and reads back as the number \<open>i\<close>); the names within one call
  are pairwise distinct; and the count \<open>0\<close> gives the empty sequence. The result is a
  function of the count, the prefix and the context alone, so the same arguments give the same
  names on every run.
\<close>

theorem makeLoopIterators_names:
  assumes "0 \<le> n"
  shows "int (length (makeLoopIterators ctx n prefix)) = n
    \<and> (\<forall>i < nat n.
          makeLoopIterators ctx n prefix ! i = Isl_id ctx (prefix @ ostream_int (int i))
          \<and> set (drop (length prefix) (id_name (makeLoopIterators ctx n prefix ! i)))
                \<subseteq> set ''0123456789''
          \<and> parse_nat 0 (drop (length prefix) (id_name (makeLoopIterators ctx n prefix ! i))) = i)
    \<and> distinct (map id_name (makeLoopIterators ctx n prefix))
    \<and> makeLoopIterators ctx 0 prefix = []"
proof -
  let ?f = "\<lambda>k. Isl_id ctx (prefix @ ostream_nat k)"
  have closed: "makeLoopIterators ctx n prefix = map ?f [0..<nat n]"
    using assms by (rule makeLoopIterators_closed)
  have len: "int (length (makeLoopIterators ctx n prefix)) = n"
    using assms by (simp add: closed)
  have nth: "\<forall>i < nat n.
      makeLoopIterators ctx n prefix ! i = Isl_id ctx (prefix @ ostream_int (int i))
      \<and> set (drop (length prefix) (id_name (makeLoopIterators ctx n prefix ! i)))
            \<subseteq> set ''0123456789''
      \<and> parse_nat 0 (drop (length prefix) (id_name (makeLoopIterators ctx n prefix ! i))) = i"
    using ostream_nat_digits
    by (simp add: closed ostream_int_of_nat parse_ostream_nat del: set_simps)
  have "inj_on (\<lambda>k. prefix @ ostream_nat k) {0..<nat n}"
    by (rule inj_onI) (simp add: ostream_nat_eq_iff)
  then have dist: "distinct (map id_name (makeLoopIterators ctx n prefix))"
    by (simp add: closed comp_def distinct_map)
  have "makeLoopIterators ctx 0 prefix = []"
    by (rule makeLoopIterators_nonpos) simp
  with len nth dist show ?thesis by blast
qed

theorem makeLoopIterators_names_witness:
  "(0::int) \<le> 3
   \<and> makeLoopIterators 0 3 ''i'' = [Isl_id 0 ''i0'', Isl_id 0 ''i1'', Isl_id 0 ''i2'']
   \<and> int (length (makeLoopIterators 0 3 ''i'')) = 3
   \<and> distinct (map id_name (makeLoopIterators 0 3 ''i''))
   \<and> makeLoopIterators 0 0 ''i'' = []"
proof -
  have h: "(0::int) \<le> 3" by simp
  have v: "makeLoopIterators 0 3 ''i'' = [Isl_id 0 ''i0'', Isl_id 0 ''i1'', Isl_id 0 ''i2'']"
    by code_simp
  from makeLoopIterators_names[OF h, of 0 "''i''"] h v show ?thesis by simp
qed

text \<open>
  Claim C8, as amended. Identifiers are values: the identifier at index \<open>i\<close> of one call and the
  identifier at index \<open>j\<close> of another call with the same prefix are equal exactly when both
  calls use the same context and \<open>i = j\<close>. So two calls with the same prefix in one context
  return the same identifiers at the same indices, whatever their counts, and identifiers of
  different contexts never coincide.
\<close>

theorem makeLoopIterators_same_prefix:
  assumes "i < nat n" and "j < nat m"
  shows "(makeLoopIterators c n p ! i = makeLoopIterators c' m p ! j) \<longleftrightarrow> (c = c' \<and> i = j)"
proof -
  from assms have n: "0 \<le> n" and m: "0 \<le> m" by auto
  show ?thesis
    using assms
    by (simp add: makeLoopIterators_closed[OF n] makeLoopIterators_closed[OF m]
        ostream_nat_eq_iff)
qed

theorem makeLoopIterators_same_prefix_witness:
  "(1::nat) < nat 2 \<and> (1::nat) < nat 3 \<and> (0::nat) < nat 3
   \<and> makeLoopIterators 0 2 ''i'' ! 1 = makeLoopIterators 0 3 ''i'' ! 1
   \<and> makeLoopIterators 0 2 ''i'' ! 1 \<noteq> makeLoopIterators 0 3 ''i'' ! 0
   \<and> makeLoopIterators 0 2 ''i'' ! 1 \<noteq> makeLoopIterators 1 3 ''i'' ! 1"
proof -
  have a: "(1::nat) < nat 2" and b: "(1::nat) < nat 3" and c: "(0::nat) < nat 3"
    by simp_all
  from makeLoopIterators_same_prefix[OF a b, of 0 "''i''" 0]
    makeLoopIterators_same_prefix[OF a c, of 0 "''i''" 0]
    makeLoopIterators_same_prefix[OF a b, of 0 "''i''" 1] a b c
  show ?thesis by simp
qed

text \<open>
  The claim as stated fails: two calls with the prefix \<open>i\<close> and the count \<open>2\<close> in one
  context both return the identifiers \<open>i0\<close> and \<open>i1\<close> of that context, so the identifiers of
  the two calls taken together are not pairwise distinct.
\<close>

theorem makeLoopIterators_same_prefix_counterexample:
  "makeLoopIterators 0 2 ''i'' = [Isl_id 0 ''i0'', Isl_id 0 ''i1'']
   \<and> Isl_id 0 ''i0'' \<in> set (makeLoopIterators 0 2 ''i'') \<inter> set (makeLoopIterators 0 2 ''i'')
   \<and> \<not> distinct (makeLoopIterators 0 2 ''i'' @ makeLoopIterators 0 2 ''i'')"
  by code_simp

text \<open>
  Claim C9, as amended. For a negative count the loop body never runs and
  \<open>makeLoopIterators\<close> returns the empty sequence; it has no failing branch.
\<close>

theorem makeLoopIterators_negative:
  "n < 0 \<Longrightarrow> makeLoopIterators ctx n prefix = []"
  by (rule makeLoopIterators_nonpos) simp

theorem makeLoopIterators_negative_witness:
  "(- 5 :: int) < 0 \<and> makeLoopIterators 7 (- 5) ''c'' = []"
  using makeLoopIterators_negative[of "- 5" 7 "''c''"] by simp

text \<open>The claim as stated fails: the call with the count \<open>-1\<close> returns, with no identifier.\<close>

theorem makeLoopIterators_negative_counterexample:
  "makeLoopIterators 0 (- 1) ''i'' = []"
  by code_simp


section \<open>Lemmas about the affine-set operations and the matcher\<close>

lemma instances_Nil [simp]: "instances [] = {}"
  by (simp add: instances_def)

lemma instances_Cons: "instances (s # D) = {tuple_id s} \<times> points s \<union> instances D"
  by (simp add: instances_def)

lemma instances_unite: "instances (unite U s) = instances U \<union> {tuple_id s} \<times> points s"
  by (induction U) (auto simp: instances_Cons)

lemma instances_union: "instances (union_set_union D1 D2) = instances D1 \<union> instances D2"
  unfolding union_set_union_def
  by (induction D2 arbitrary: D1) (auto simp: instances_unite instances_Cons)

lemma tuple_ids_unite: "tuple_id ` set (unite U s) = insert (tuple_id s) (tuple_id ` set U)"
  by (induction U) auto

lemma tuple_ids_union:
  "tuple_id ` set (union_set_union D1 D2) = tuple_id ` set D1 \<union> tuple_id ` set D2"
  unfolding union_set_union_def
  by (induction D2 arbitrary: D1) (auto simp: tuple_ids_unite)

lemma isSupportedReduction_returns:
  "(\<exists>b. isSupportedReduction st = Inr b) \<longleftrightarrow> provide_shape st"
  by (induction st rule: provide_shape.induct)
     (auto simp: isSupportedReduction_def split: list.splits)

lemma isSupportedReduction_True:
  "isSupportedReduction st = Inr True \<longleftrightarrow>
     (\<exists>ptr name f a b rest vals args.
        st = Stmt_at ptr (Provide name (Call f (Add a b # rest) # vals) args))"
proof (cases st)
  case Stmt_undefined
  then show ?thesis by (simp add: isSupportedReduction_def)
next
  case (Stmt_at ptr node)
  show ?thesis
  proof (cases node)
    case (Provide name vals args)
    show ?thesis
    proof (cases vals)
      case Nil
      with Stmt_at Provide show ?thesis by (simp add: isSupportedReduction_def)
    next
      case (Cons v0 vs)
      show ?thesis
      proof (cases v0)
        case (Call f cargs)
        show ?thesis
        proof (cases cargs)
          case Nil
          with Stmt_at Provide Cons Call show ?thesis by (simp add: isSupportedReduction_def)
        next
          case (Cons a0 as)
          with Stmt_at Provide \<open>vals = v0 # vs\<close> Call show ?thesis
            by (cases a0) (simp_all add: isSupportedReduction_def)
        qed
      qed (use Stmt_at Provide Cons in \<open>simp_all add: isSupportedReduction_def\<close>)
    qed
  qed (use Stmt_at in \<open>simp_all add: isSupportedReduction_def\<close>)
qed

lemma same_as_Stmt_at:
  "same_as s (Stmt_at a node) \<longleftrightarrow> (\<exists>node'. s = Stmt_at a node')"
  by (cases s) auto

lemma find_update_fst:
  "fst (find_update rs st rd) \<longleftrightarrow> (\<exists>r \<in> set rs. same_as (update r) st)"
  by (induction rs) auto

text \<open>
  An identifier is classified exactly when it is registered, its statement passes the
  supported-reduction test, and some catalog entry's update is the same node.
\<close>

lemma classified_iff:
  "classified scop i \<longleftrightarrow>
     (\<exists>st. halide_statements scop i = Some st \<and> isSupportedReduction st = Inr True
        \<and> (\<exists>r \<in> set (halide_reductions scop). same_as (update r) st))"
proof (cases "halide_statements scop i")
  case None
  then show ?thesis by (simp add: classified_def isReductionUpdateId_def)
next
  case (Some st)
  show ?thesis
  proof (cases "isSupportedReduction st")
    case (Inl e)
    with Some show ?thesis by (simp add: classified_def isReductionUpdateId_def)
  next
    case (Inr b)
    with Some show ?thesis
      using find_update_fst[of "halide_reductions scop" st "[]"]
      by (cases b; cases "find_update (halide_reductions scop) st []")
         (simp_all add: classified_def isReductionUpdateId_def)
  qed
qed

lemma isReductionUpdateId_returns:
  "(\<exists>r. isReductionUpdateId i scop rd = Inr r) \<longleftrightarrow>
     (\<exists>st. halide_statements scop i = Some st \<and> provide_shape st)"
proof (cases "halide_statements scop i")
  case None
  then show ?thesis by (simp add: isReductionUpdateId_def)
next
  case (Some st)
  show ?thesis
  proof (cases "isSupportedReduction st")
    case (Inl e)
    then have "\<not> provide_shape st"
      using isSupportedReduction_returns[of st] by auto
    with Some Inl show ?thesis by (simp add: isReductionUpdateId_def)
  next
    case (Inr b)
    then have "provide_shape st"
      using isSupportedReduction_returns[of st] by auto
    with Some Inr show ?thesis by (auto simp: isReductionUpdateId_def)
  qed
qed

lemma isReductionUpdateId_error:
  "isReductionUpdateId i scop rd = Inl e \<Longrightarrow>
     (halide_statements scop i = None \<and> e = CheckFailure ''id is not a statement in scop'' i)
     \<or> (\<exists>st. halide_statements scop i = Some st \<and> \<not> provide_shape st
           \<and> isSupportedReduction st = Inl e \<and> (e = NullDereference \<or> e = OutOfBounds))"
proof (cases "halide_statements scop i")
  case None
  assume "isReductionUpdateId i scop rd = Inl e"
  with None show ?thesis by (simp add: isReductionUpdateId_def)
next
  case (Some st)
  assume a: "isReductionUpdateId i scop rd = Inl e"
  with Some have e: "isSupportedReduction st = Inl e"
    by (auto simp: isReductionUpdateId_def split: sum.splits if_splits)
  then have "\<not> provide_shape st"
    using isSupportedReduction_returns[of st] by auto
  moreover from e have "e = NullDereference \<or> e = OutOfBounds"
    by (auto simp: isSupportedReduction_def split: option.splits list.splits if_splits)
  ultimately show ?thesis using Some e by simp
qed

text \<open>
  The loop invariant of \<open>foreach_set\<close>: when the loop returns, \<open>update\<close> has gained the
  instances of exactly the visited components whose identifier is classified.
\<close>

lemma foreach_set_instances:
  "foreach_set scop D U0 = Inr U \<Longrightarrow>
     instances U = instances U0 \<union> {x \<in> instances D. classified scop (fst x)}"
proof (induction D arbitrary: U0)
  case Nil
  then show ?case by simp
next
  case (Cons s D)
  from Cons.prems obtain b rd where
    r: "isReductionUpdateId (tuple_id s) scop [] = Inr (b, rd)"
    and rest: "foreach_set scop D (if b then unite U0 s else U0) = Inr U"
    by (auto split: sum.splits)
  have c: "classified scop (tuple_id s) = b"
    by (simp add: classified_def r)
  have here: "{x \<in> {tuple_id s} \<times> points s. classified scop (fst x)} =
      (if b then {tuple_id s} \<times> points s else {})"
    using c by auto
  have "instances U = instances (if b then unite U0 s else U0)
      \<union> {x \<in> instances D. classified scop (fst x)}"
    by (rule Cons.IH[OF rest])
  also have "instances (if b then unite U0 s else U0) =
      instances U0 \<union> {x \<in> {tuple_id s} \<times> points s. classified scop (fst x)}"
    by (simp add: here instances_unite)
  finally show ?case
    by (simp add: instances_Cons Collect_disj_eq Un_assoc Collect_conj_eq Int_Un_distrib2)
qed

lemma foreach_set_returns:
  "(\<exists>U. foreach_set scop D U0 = Inr U) \<longleftrightarrow>
     (\<forall>s \<in> set D. \<exists>r. isReductionUpdateId (tuple_id s) scop [] = Inr r)"
proof (induction D arbitrary: U0)
  case Nil
  then show ?case by simp
next
  case (Cons s D)
  show ?case
  proof (cases "isReductionUpdateId (tuple_id s) scop []")
    case (Inl e)
    then show ?thesis by auto
  next
    case (Inr r)
    then show ?thesis using Cons[of "if fst r then unite U0 s else U0"]
      by (cases r) auto
  qed
qed

lemma foreach_set_error:
  "foreach_set scop D U0 = Inl e \<Longrightarrow>
     \<exists>s \<in> set D. isReductionUpdateId (tuple_id s) scop [] = Inl e"
proof (induction D arbitrary: U0)
  case Nil
  then show ?case by simp
next
  case (Cons s D)
  show ?case
  proof (cases "isReductionUpdateId (tuple_id s) scop []")
    case (Inl e')
    with Cons.prems show ?thesis by simp
  next
    case (Inr r)
    with Cons.prems have "foreach_set scop D (if fst r then unite U0 s else U0) = Inl e"
      by (cases r) simp
    from Cons.IH[OF this] show ?thesis by auto
  qed
qed

lemma reductionUpdates_returns:
  "(\<exists>U. reductionUpdates D scop = Inr U) \<longleftrightarrow>
     (\<forall>i \<in> tuple_id ` set D. \<exists>st. halide_statements scop i = Some st \<and> provide_shape st)"
  unfolding reductionUpdates_def foreach_set_returns isReductionUpdateId_returns
  by blast

lemma reductionUpdates_instances:
  "reductionUpdates D scop = Inr U \<Longrightarrow>
     instances U = {x \<in> instances D. classified scop (fst x)}"
  unfolding reductionUpdates_def by (drule foreach_set_instances) simp

text \<open>The example region, evaluated.\<close>

lemma ex_run: "reductionUpdates [S_set, T_set] ex_scop = Inr [S_set]"
  by (simp add: reductionUpdates_def isReductionUpdateId_def isSupportedReduction_def
        S_id_def T_id_def sum_update_def prod_update_def S_set_def T_set_def ex_scop_def)

lemma ex_run_copy: "reductionUpdates [S_set] ex_scop_copy = Inr []"
  by (simp add: reductionUpdates_def isReductionUpdateId_def isSupportedReduction_def
        S_id_def T_id_def sum_update_def prod_update_def S_set_def ex_scop_def
        ex_scop_copy_def)


section \<open>Properties of the matcher\<close>

text \<open>
  Claim C1. \<open>isSingleReductionWithin\<close> answers true exactly when the relation obtained by
  restricting the body reduction relation to the Domain and applying the prefix on its domain
  side is single-valued: the relation between the outer coordinates \<open>z\<close> and the reduction
  targets \<open>y\<close> of the instances of the Domain that the prefix sends to \<open>z\<close>. Said pointwise,
  any two instances of the Domain with the same outer coordinates have the same reduction
  target.
\<close>

theorem isSingleReductionWithin_iff:
  "(isSingleReductionWithin D prefix scop \<longleftrightarrow>
      single_valued {(z, y). \<exists>x. x \<in> instances D \<and> (x, y) \<in> body_reductions scop
                                \<and> prefix x = Some z})
   \<and> (isSingleReductionWithin D prefix scop \<longleftrightarrow>
      (\<forall>x x' y y' z. x \<in> instances D \<and> x' \<in> instances D
          \<and> (x, y) \<in> body_reductions scop \<and> (x', y') \<in> body_reductions scop
          \<and> prefix x = Some z \<and> prefix x' = Some z \<longrightarrow> y = y'))"
proof -
  let ?R = "{(z, y). \<exists>x. x \<in> instances D \<and> (x, y) \<in> body_reductions scop
                          \<and> prefix x = Some z}"
  have composed:
    "apply_domain (intersect_domain (body_reductions scop) D) (union_map_from prefix) = ?R"
    by (auto simp: apply_domain_def intersect_domain_def union_map_from_def)
  have run: "isSingleReductionWithin D prefix scop = is_single_valued ?R"
    by (simp add: isSingleReductionWithin_def Let_def composed)
  have sv: "is_single_valued ?R = single_valued ?R"
    by (simp add: is_single_valued_def single_valued_def)
  have pw: "is_single_valued ?R \<longleftrightarrow>
      (\<forall>x x' y y' z. x \<in> instances D \<and> x' \<in> instances D
          \<and> (x, y) \<in> body_reductions scop \<and> (x', y') \<in> body_reductions scop
          \<and> prefix x = Some z \<and> prefix x' = Some z \<longrightarrow> y = y')"
    unfolding is_single_valued_def by blast
  from run sv pw show ?thesis by simp
qed

theorem isSingleReductionWithin_iff_witness:
  "isSingleReductionWithin [S_set] ex_prefix ex_scop
   \<and> \<not> isSingleReductionWithin [S_set] ex_prefix ex_scop_two_targets"
proof -
  have pos: "\<forall>x x' y y' z. x \<in> instances [S_set] \<and> x' \<in> instances [S_set]
      \<and> (x, y) \<in> body_reductions ex_scop \<and> (x', y') \<in> body_reductions ex_scop
      \<and> ex_prefix x = Some z \<and> ex_prefix x' = Some z \<longrightarrow> y = y'"
    by (auto simp: S_id_def T_id_def R_id_def sum_update_def prod_update_def S_set_def T_set_def
        ex_scop_def ex_scop_two_targets_def ex_prefix_def)
  have neg: "\<not> (\<forall>x x' y y' z. x \<in> instances [S_set] \<and> x' \<in> instances [S_set]
      \<and> (x, y) \<in> body_reductions ex_scop_two_targets
      \<and> (x', y') \<in> body_reductions ex_scop_two_targets
      \<and> ex_prefix x = Some z \<and> ex_prefix x' = Some z \<longrightarrow> y = y')"
  proof
    assume a: "\<forall>x x' y y' z. x \<in> instances [S_set] \<and> x' \<in> instances [S_set]
      \<and> (x, y) \<in> body_reductions ex_scop_two_targets
      \<and> (x', y') \<in> body_reductions ex_scop_two_targets
      \<and> ex_prefix x = Some z \<and> ex_prefix x' = Some z \<longrightarrow> y = y'"
    have "(R_id, [0::int]) = (T_id, [0])"
      by (rule a[rule_format, of "(S_id, [0, 0])" "(S_id, [0, 1])" _ _ "[0]"])
         (simp add: S_id_def T_id_def R_id_def sum_update_def prod_update_def S_set_def T_set_def
        ex_scop_def ex_scop_two_targets_def ex_prefix_def instances_Cons)
    then show False by (simp add: S_id_def T_id_def R_id_def sum_update_def prod_update_def S_set_def T_set_def
        ex_scop_def ex_scop_two_targets_def ex_prefix_def)
  qed
  from pos neg isSingleReductionWithin_iff[of "[S_set]" ex_prefix ex_scop]
    isSingleReductionWithin_iff[of "[S_set]" ex_prefix ex_scop_two_targets]
  show ?thesis by blast
qed

text \<open>
  Claim C2. Whenever \<open>reductionUpdates\<close> returns a Domain for the input Domain \<open>D\<close>, the
  returned Domain is a subset of \<open>D\<close> as a set of statement instances. It does return one
  when the identifiers of \<open>D\<close> are registered with statements of the expected shape. On
  the empty Domain it returns the empty Domain, for every Scop.
\<close>

theorem reductionUpdates_subset:
  "(\<forall>U. reductionUpdates D scop = Inr U \<longrightarrow> instances U \<subseteq> instances D)
   \<and> ((\<forall>s \<in> set D. \<exists>st. halide_statements scop (tuple_id s) = Some st \<and> provide_shape st)
        \<longrightarrow> (\<exists>U. reductionUpdates D scop = Inr U \<and> instances U \<subseteq> instances D))
   \<and> reductionUpdates [] scop = Inr [] \<and> instances [] = {}"
proof -
  have sub: "instances U \<subseteq> instances D" if "reductionUpdates D scop = Inr U" for U
    using reductionUpdates_instances[OF that] by blast
  have "\<exists>U. reductionUpdates D scop = Inr U \<and> instances U \<subseteq> instances D"
    if "\<forall>s \<in> set D. \<exists>st. halide_statements scop (tuple_id s) = Some st \<and> provide_shape st"
  proof -
    from that obtain U where "reductionUpdates D scop = Inr U"
      using reductionUpdates_returns[of D scop] by auto
    with sub show ?thesis by blast
  qed
  moreover have "reductionUpdates [] scop = Inr []"
    by (simp add: reductionUpdates_def)
  ultimately show ?thesis using sub by simp
qed

theorem reductionUpdates_subset_witness:
  "reductionUpdates [S_set, T_set] ex_scop = Inr [S_set]
   \<and> instances [S_set] \<subseteq> instances [S_set, T_set]
   \<and> (S_id, [0, 1]) \<in> instances [S_set]
   \<and> reductionUpdates [] ex_scop = Inr []"
proof -
  have "(S_id, [0, 1]) \<in> instances [S_set]"
    by (simp add: instances_Cons S_set_def)
  with reductionUpdates_subset[of "[S_set, T_set]" ex_scop] ex_run show ?thesis
    by (simp add: reductionUpdates_def)
qed

text \<open>
  Claim C3. An instance of statement \<open>i\<close> is in the result of \<open>reductionUpdates\<close> only if the
  registered statement of \<open>i\<close> is an assignment whose first value is a call whose first
  argument is an addition. A statement of any other shape (a multiplication, a minimum or a
  maximum as the outermost combiner, or a first value that is no call) has none of its
  instances in the result, whatever the reduction catalog holds.
\<close>

theorem reductionUpdates_addition_only:
  assumes "reductionUpdates D scop = Inr U"
  shows "((i, p) \<in> instances U \<longrightarrow>
            (\<exists>ptr name f a b rest vals args. halide_statements scop i =
               Some (Stmt_at ptr (Provide name (Call f (Add a b # rest) # vals) args))))
         \<and> (\<forall>st. halide_statements scop i = Some st
               \<and> (\<forall>ptr name f a b rest vals args.
                     st \<noteq> Stmt_at ptr (Provide name (Call f (Add a b # rest) # vals) args))
               \<longrightarrow> (i, p) \<notin> instances U)"
proof -
  have shape: "\<exists>ptr name f a b rest vals args. halide_statements scop i =
       Some (Stmt_at ptr (Provide name (Call f (Add a b # rest) # vals) args))"
    if "(i, p) \<in> instances U"
  proof -
    from that have "classified scop i"
      using reductionUpdates_instances[OF assms] by simp
    then obtain st where st: "halide_statements scop i = Some st"
        and sup: "isSupportedReduction st = Inr True"
      unfolding classified_iff by blast
    from sup st show ?thesis
      unfolding isSupportedReduction_True by blast
  qed
  then show ?thesis by fastforce
qed

theorem reductionUpdates_addition_only_witness:
  "reductionUpdates [S_set, T_set] ex_scop = Inr [S_set]
   \<and> (S_id, [0, 0]) \<in> instances [S_set]
   \<and> halide_statements ex_scop S_id = Some (Stmt_at 1 sum_update)
   \<and> halide_statements ex_scop T_id = Some (Stmt_at 2 prod_update)
   \<and> update (halide_reductions ex_scop ! 1) = Stmt_at 2 prod_update
   \<and> (T_id, [0, 0]) \<in> instances [S_set, T_set]
   \<and> (T_id, [0, 0]) \<notin> instances [S_set]"
proof -
  have st: "halide_statements ex_scop T_id = Some (Stmt_at 2 prod_update)"
    by (simp add: S_id_def T_id_def R_id_def sum_update_def prod_update_def S_set_def T_set_def
        ex_scop_def)
  have not_add: "\<forall>ptr name f a b rest vals args.
      Stmt_at 2 prod_update \<noteq> Stmt_at ptr (Provide name (Call f (Add a b # rest) # vals) args)"
    by (simp add: prod_update_def)
  from reductionUpdates_addition_only[OF ex_run, of T_id "[0, 0]"] st not_add
  have "(T_id, [0, 0]) \<notin> instances [S_set]" by blast
  moreover have "(S_id, [0, 0]) \<in> instances [S_set]"
    "(T_id, [0, 0]) \<in> instances [S_set, T_set]"
    by (simp_all add: instances_Cons S_set_def T_set_def)
  moreover have "halide_statements ex_scop S_id = Some (Stmt_at 1 sum_update)"
    "update (halide_reductions ex_scop ! 1) = Stmt_at 2 prod_update"
    by (simp_all add: S_id_def T_id_def R_id_def sum_update_def prod_update_def S_set_def T_set_def
        ex_scop_def)
  ultimately show ?thesis using ex_run st by simp
qed

text \<open>
  Claim C4. An instance of statement \<open>i\<close> is in the result of \<open>reductionUpdates\<close> only if some
  entry of the reduction catalog has as its update the node at the very address of the
  registered statement of \<open>i\<close>. When no catalog entry points to that address, the statement
  has no instance in the result, even if an entry holds a node with equal contents: two
  handles to equal nodes at different addresses are not the same node.
\<close>

theorem reductionUpdates_identity_match:
  "(reductionUpdates D scop = Inr U \<and> (i, p) \<in> instances U \<longrightarrow>
      (\<exists>ptr node node' r. halide_statements scop i = Some (Stmt_at ptr node)
          \<and> r \<in> set (halide_reductions scop) \<and> update r = Stmt_at ptr node'))
   \<and> (reductionUpdates D scop = Inr U \<and> halide_statements scop i = Some (Stmt_at a node)
        \<and> (\<forall>r \<in> set (halide_reductions scop). \<forall>node'. update r \<noteq> Stmt_at a node')
        \<longrightarrow> (i, p) \<notin> instances U)
   \<and> (a \<noteq> b \<longrightarrow> \<not> same_as (Stmt_at b node) (Stmt_at a node))"
proof -
  have match: "\<exists>ptr node node' r. halide_statements scop i = Some (Stmt_at ptr node)
          \<and> r \<in> set (halide_reductions scop) \<and> update r = Stmt_at ptr node'"
    if run: "reductionUpdates D scop = Inr U" and mem: "(i, p) \<in> instances U"
  proof -
    from mem have "classified scop i"
      using reductionUpdates_instances[OF run] by simp
    then obtain st r where st: "halide_statements scop i = Some st"
        and sup: "isSupportedReduction st = Inr True"
        and r: "r \<in> set (halide_reductions scop)" and same: "same_as (update r) st"
      unfolding classified_iff by blast
    from sup obtain ptr node where at: "st = Stmt_at ptr node"
      unfolding isSupportedReduction_True by blast
    from same obtain node' where "update r = Stmt_at ptr node'"
      unfolding at same_as_Stmt_at by blast
    with st r at show ?thesis by blast
  qed
  then have "(i, p) \<notin> instances U"
    if "reductionUpdates D scop = Inr U" "halide_statements scop i = Some (Stmt_at a node)"
       "\<forall>r \<in> set (halide_reductions scop). \<forall>node'. update r \<noteq> Stmt_at a node'"
    using that by fastforce
  with match show ?thesis by simp
qed

theorem reductionUpdates_identity_match_witness:
  "reductionUpdates [S_set] ex_scop_copy = Inr []
   \<and> halide_statements ex_scop_copy S_id = Some (Stmt_at 1 sum_update)
   \<and> map update (halide_reductions ex_scop_copy) = [Stmt_at 3 sum_update]
   \<and> (S_id, [0, 0]) \<in> instances [S_set]
   \<and> (S_id, [0, 0]) \<notin> instances []
   \<and> \<not> same_as (Stmt_at 3 sum_update) (Stmt_at 1 sum_update)
   \<and> reductionUpdates [S_set] ex_scop = Inr [S_set]
   \<and> update (halide_reductions ex_scop ! 0) = Stmt_at 1 sum_update"
proof -
  have st: "halide_statements ex_scop_copy S_id = Some (Stmt_at 1 sum_update)"
    and cat: "map update (halide_reductions ex_scop_copy) = [Stmt_at 3 sum_update]"
    by (simp_all add: S_id_def T_id_def R_id_def sum_update_def prod_update_def S_set_def T_set_def
        ex_scop_def ex_scop_copy_def)
  have none: "\<forall>r \<in> set (halide_reductions ex_scop_copy). \<forall>node'. update r \<noteq> Stmt_at 1 node'"
    by (simp add: S_id_def T_id_def R_id_def sum_update_def prod_update_def S_set_def T_set_def
        ex_scop_def ex_scop_copy_def)
  have ne: "(1::nat) \<noteq> 3" by simp
  from reductionUpdates_identity_match
         [of "[S_set]" ex_scop_copy "[]" S_id "[0, 0]" 1 sum_update 3]
    ex_run_copy st none ne
  have "(S_id, [0, 0]) \<notin> instances []"
    "\<not> same_as (Stmt_at 3 sum_update) (Stmt_at 1 sum_update)"
    by blast+
  moreover have "(S_id, [0, 0]) \<in> instances [S_set]"
    by (simp add: instances_Cons S_set_def)
  moreover have "reductionUpdates [S_set] ex_scop = Inr [S_set]"
    by (simp add: reductionUpdates_def isReductionUpdateId_def isSupportedReduction_def
         S_id_def T_id_def R_id_def sum_update_def prod_update_def S_set_def T_set_def
        ex_scop_def ex_scop_copy_def)
  moreover have "update (halide_reductions ex_scop ! 0) = Stmt_at 1 sum_update"
    by (simp add: S_id_def T_id_def R_id_def sum_update_def prod_update_def S_set_def T_set_def
        ex_scop_def ex_scop_copy_def)
  ultimately show ?thesis using ex_run_copy st cat by simp
qed


text \<open>
  Claim C5, as amended. When some identifier of the Domain is not registered,
  \<open>reductionUpdates\<close> never returns a Domain. When, in addition, every registered statement
  reached from the Domain is an assignment with at least one value whose first value, if a
  call, has an argument, the failure is the registry check, and its diagnostic names an
  unregistered identifier of the Domain. When all identifiers are registered and the
  statements reached have that shape, the call returns a Domain. When all identifiers are
  registered and some statement reached has another shape, the call ends in one of the two
  unguarded accesses instead, the null dereference or the read past the end. Every failure
  of the call is of one of these kinds: the registry check naming an unregistered identifier
  of the Domain, or the unguarded access that the supported-reduction test makes on a
  registered statement of another shape.
\<close>

theorem reductionUpdates_missing_id:
  "((\<exists>s \<in> set D. halide_statements scop (tuple_id s) = None)
      \<longrightarrow> (\<forall>U. reductionUpdates D scop \<noteq> Inr U))
   \<and> ((\<forall>s \<in> set D. \<forall>st. halide_statements scop (tuple_id s) = Some st \<longrightarrow> provide_shape st)
      \<longrightarrow> ((\<exists>s \<in> set D. halide_statements scop (tuple_id s) = None)
            \<longrightarrow> (\<exists>s \<in> set D. halide_statements scop (tuple_id s) = None
                  \<and> reductionUpdates D scop =
                      Inl (CheckFailure ''id is not a statement in scop'' (tuple_id s))))
        \<and> ((\<forall>s \<in> set D. halide_statements scop (tuple_id s) \<noteq> None)
            \<longrightarrow> (\<exists>U. reductionUpdates D scop = Inr U)))
   \<and> ((\<forall>s \<in> set D. halide_statements scop (tuple_id s) \<noteq> None)
        \<and> (\<exists>s \<in> set D. \<exists>st. halide_statements scop (tuple_id s) = Some st
               \<and> \<not> provide_shape st)
      \<longrightarrow> reductionUpdates D scop = Inl NullDereference
          \<or> reductionUpdates D scop = Inl OutOfBounds)
   \<and> (\<forall>e. reductionUpdates D scop = Inl e \<longrightarrow>
        (\<exists>s \<in> set D. halide_statements scop (tuple_id s) = None
            \<and> e = CheckFailure ''id is not a statement in scop'' (tuple_id s))
        \<or> (\<exists>s \<in> set D. \<exists>st. halide_statements scop (tuple_id s) = Some st
            \<and> \<not> provide_shape st \<and> isSupportedReduction st = Inl e
            \<and> (e = NullDereference \<or> e = OutOfBounds)))"
proof -
  have kinds: "(\<exists>s \<in> set D. halide_statements scop (tuple_id s) = None
            \<and> e = CheckFailure ''id is not a statement in scop'' (tuple_id s))
        \<or> (\<exists>s \<in> set D. \<exists>st. halide_statements scop (tuple_id s) = Some st
            \<and> \<not> provide_shape st \<and> isSupportedReduction st = Inl e
            \<and> (e = NullDereference \<or> e = OutOfBounds))"
    if e: "reductionUpdates D scop = Inl e" for e
  proof -
    from e obtain s where s: "s \<in> set D"
        and se: "isReductionUpdateId (tuple_id s) scop [] = Inl e"
      unfolding reductionUpdates_def by (blast dest: foreach_set_error)
    from isReductionUpdateId_error[OF se] s show ?thesis by blast
  qed
  have unguarded: "reductionUpdates D scop = Inl NullDereference
      \<or> reductionUpdates D scop = Inl OutOfBounds"
    if reg: "\<forall>s \<in> set D. halide_statements scop (tuple_id s) \<noteq> None"
      and bad: "\<exists>s \<in> set D. \<exists>st. halide_statements scop (tuple_id s) = Some st
                 \<and> \<not> provide_shape st"
  proof -
    from bad have "\<not> (\<exists>U. reductionUpdates D scop = Inr U)"
      unfolding reductionUpdates_returns by fastforce
    then obtain e where e: "reductionUpdates D scop = Inl e"
      by (cases "reductionUpdates D scop") auto
    from kinds[OF e] reg have "e = NullDereference \<or> e = OutOfBounds"
      by blast
    with e show ?thesis by blast
  qed
  have never: "\<forall>U. reductionUpdates D scop \<noteq> Inr U"
    if "\<exists>s \<in> set D. halide_statements scop (tuple_id s) = None"
    using that reductionUpdates_returns[of D scop] by fastforce
  have diag: "\<exists>s \<in> set D. halide_statements scop (tuple_id s) = None
        \<and> reductionUpdates D scop =
            Inl (CheckFailure ''id is not a statement in scop'' (tuple_id s))"
    if shape: "\<forall>s \<in> set D. \<forall>st. halide_statements scop (tuple_id s) = Some st
                 \<longrightarrow> provide_shape st"
      and miss: "\<exists>s \<in> set D. halide_statements scop (tuple_id s) = None"
  proof -
    from never[OF miss] obtain e where e: "reductionUpdates D scop = Inl e"
      by (cases "reductionUpdates D scop") auto
    then obtain s where s: "s \<in> set D"
        and se: "isReductionUpdateId (tuple_id s) scop [] = Inl e"
      unfolding reductionUpdates_def by (blast dest: foreach_set_error)
    from isReductionUpdateId_error[OF se] shape s
    have "halide_statements scop (tuple_id s) = None"
        "e = CheckFailure ''id is not a statement in scop'' (tuple_id s)"
      by auto
    with s e show ?thesis by blast
  qed
  have total: "\<exists>U. reductionUpdates D scop = Inr U"
    if "\<forall>s \<in> set D. \<forall>st. halide_statements scop (tuple_id s) = Some st \<longrightarrow> provide_shape st"
      and "\<forall>s \<in> set D. halide_statements scop (tuple_id s) \<noteq> None"
    unfolding reductionUpdates_returns using that by fastforce
  from never diag total unguarded kinds show ?thesis by blast
qed

theorem reductionUpdates_missing_id_witness:
  "halide_statements ex_scop R_id = None
   \<and> provide_shape (Stmt_at 1 sum_update) \<and> provide_shape (Stmt_at 2 prod_update)
   \<and> reductionUpdates [S_set, \<lparr>tuple_id = R_id, points = {[7]}\<rparr>, T_set] ex_scop
        = Inl (CheckFailure ''id is not a statement in scop'' R_id)
   \<and> (\<exists>U. reductionUpdates [S_set, T_set] ex_scop = Inr U)
   \<and> halide_statements ex_scop_not_provide (tuple_id S_set) \<noteq> None
   \<and> \<not> provide_shape (Stmt_at 5 (Evaluate (IntImm 0)))
   \<and> (reductionUpdates [S_set] ex_scop_not_provide = Inl NullDereference
        \<or> reductionUpdates [S_set] ex_scop_not_provide = Inl OutOfBounds)
   \<and> reductionUpdates [S_set] ex_scop_not_provide = Inl NullDereference
   \<and> reductionUpdates [S_set] ex_scop_no_value = Inl OutOfBounds
   \<and> isSupportedReduction (Stmt_at 6 (Provide ''O'' [] [Variable ''i''])) = Inl OutOfBounds"
proof -
  let ?D = "[S_set, \<lparr>tuple_id = R_id, points = {[7]}\<rparr>, T_set]"
  have reg_np: "\<forall>s \<in> set [S_set]. halide_statements ex_scop_not_provide (tuple_id s) \<noteq> None"
    and bad_np: "\<exists>s \<in> set [S_set]. \<exists>st.
       halide_statements ex_scop_not_provide (tuple_id s) = Some st \<and> \<not> provide_shape st"
    by (simp_all add: S_id_def S_set_def ex_scop_def ex_scop_not_provide_def)
  from reductionUpdates_missing_id[of "[S_set]" ex_scop_not_provide] reg_np bad_np
  have unguarded: "reductionUpdates [S_set] ex_scop_not_provide = Inl NullDereference
        \<or> reductionUpdates [S_set] ex_scop_not_provide = Inl OutOfBounds"
    by blast
  have run_np: "reductionUpdates [S_set] ex_scop_not_provide = Inl NullDereference"
    by (simp add: reductionUpdates_def isReductionUpdateId_def isSupportedReduction_def
        S_id_def S_set_def ex_scop_def ex_scop_not_provide_def)
  have run_nv: "reductionUpdates [S_set] ex_scop_no_value = Inl OutOfBounds"
    by (simp add: reductionUpdates_def isReductionUpdateId_def isSupportedReduction_def
        S_id_def S_set_def ex_scop_def ex_scop_no_value_def)
  from reductionUpdates_missing_id[of "[S_set]" ex_scop_no_value] run_nv
  have "(\<exists>s \<in> set [S_set]. halide_statements ex_scop_no_value (tuple_id s) = None
            \<and> OutOfBounds = CheckFailure ''id is not a statement in scop'' (tuple_id s))
        \<or> (\<exists>s \<in> set [S_set]. \<exists>st. halide_statements ex_scop_no_value (tuple_id s) = Some st
            \<and> \<not> provide_shape st \<and> isSupportedReduction st = Inl OutOfBounds
            \<and> (OutOfBounds = NullDereference \<or> OutOfBounds = OutOfBounds))"
    by blast
  then have test_nv:
    "isSupportedReduction (Stmt_at 6 (Provide ''O'' [] [Variable ''i''])) = Inl OutOfBounds"
    by (simp add: S_id_def S_set_def ex_scop_def ex_scop_no_value_def)
  have np: "halide_statements ex_scop_not_provide (tuple_id S_set) \<noteq> None"
    "\<not> provide_shape (Stmt_at 5 (Evaluate (IntImm 0)))"
    by (simp_all add: S_id_def S_set_def ex_scop_def ex_scop_not_provide_def)
  have miss: "\<exists>s \<in> set ?D. halide_statements ex_scop (tuple_id s) = None"
    by (simp add: S_id_def T_id_def R_id_def sum_update_def prod_update_def S_set_def T_set_def
        ex_scop_def ex_scop_not_provide_def)
  have shape: "\<forall>s \<in> set ?D. \<forall>st. halide_statements ex_scop (tuple_id s) = Some st
      \<longrightarrow> provide_shape st"
    by (simp add: S_id_def T_id_def R_id_def sum_update_def prod_update_def S_set_def T_set_def
        ex_scop_def ex_scop_not_provide_def)
  have shape2: "\<forall>s \<in> set [S_set, T_set]. \<forall>st.
      halide_statements ex_scop (tuple_id s) = Some st \<longrightarrow> provide_shape st"
    by (simp add: S_id_def T_id_def R_id_def sum_update_def prod_update_def S_set_def T_set_def
        ex_scop_def ex_scop_not_provide_def)
  have reg: "\<forall>s \<in> set [S_set, T_set]. halide_statements ex_scop (tuple_id s) \<noteq> None"
    by (simp add: S_id_def T_id_def R_id_def sum_update_def prod_update_def S_set_def T_set_def
        ex_scop_def ex_scop_not_provide_def)
  from reductionUpdates_missing_id[of ?D ex_scop] miss shape
  obtain s where "s \<in> set ?D" "halide_statements ex_scop (tuple_id s) = None"
    "reductionUpdates ?D ex_scop =
       Inl (CheckFailure ''id is not a statement in scop'' (tuple_id s))"
    by blast
  moreover from this(1,2) have "tuple_id s = R_id"
    by (auto simp: S_id_def T_id_def R_id_def sum_update_def prod_update_def S_set_def T_set_def
        ex_scop_def ex_scop_not_provide_def)
  moreover from reductionUpdates_missing_id[of "[S_set, T_set]" ex_scop] shape2 reg
  have "\<exists>U. reductionUpdates [S_set, T_set] ex_scop = Inr U" by blast
  moreover have "halide_statements ex_scop R_id = None"
    "provide_shape (Stmt_at 1 sum_update)" "provide_shape (Stmt_at 2 prod_update)"
    by (simp_all add: S_id_def T_id_def R_id_def sum_update_def prod_update_def S_set_def T_set_def
        ex_scop_def ex_scop_not_provide_def)
  ultimately show ?thesis using unguarded run_np run_nv test_nv np by simp
qed

text \<open>
  The claim as stated fails: with every identifier of the Domain registered, the call ends
  in a failure other than the registry check when the registered statement is no assignment
  (a null dereference), an assignment without a value (a read past the end of \<open>values\<close>),
  or an assignment whose first value is a call without an argument (a read past the end of
  \<open>args\<close>).
\<close>

theorem reductionUpdates_missing_id_counterexample:
  "halide_statements ex_scop_not_provide (tuple_id S_set) = Some (Stmt_at 5 (Evaluate (IntImm 0)))
   \<and> reductionUpdates [S_set] ex_scop_not_provide = Inl NullDereference
   \<and> halide_statements ex_scop_no_value (tuple_id S_set)
        = Some (Stmt_at 6 (Provide ''O'' [] [Variable ''i'']))
   \<and> reductionUpdates [S_set] ex_scop_no_value = Inl OutOfBounds
   \<and> halide_statements ex_scop_no_argument (tuple_id S_set)
        = Some (Stmt_at 7 (Provide ''O'' [Call ''f'' []] [Variable ''i'']))
   \<and> reductionUpdates [S_set] ex_scop_no_argument = Inl OutOfBounds"
  by (simp add: reductionUpdates_def isReductionUpdateId_def isSupportedReduction_def
        S_id_def S_set_def ex_scop_def ex_scop_not_provide_def ex_scop_no_value_def
        ex_scop_no_argument_def)

text \<open>
  Claim C6. When \<open>reductionUpdates\<close> returns on the Domains \<open>D1\<close> and \<open>D2\<close>, it returns on their
  union, and the result is the union of the two results, as sets of statement instances; the
  Domains need not even be disjoint. In general it returns on a union exactly when it returns
  on both parts. Visiting the components of \<open>D1\<close> in any other order returns as well, with
  the same set of statement instances.
\<close>

theorem reductionUpdates_union:
  assumes "reductionUpdates D1 scop = Inr U1" and "reductionUpdates D2 scop = Inr U2"
  shows "(\<exists>U. reductionUpdates (union_set_union D1 D2) scop = Inr U
              \<and> instances U = instances U1 \<union> instances U2)
       \<and> instances (union_set_union D1 D2) = instances D1 \<union> instances D2
       \<and> (\<forall>E1 E2. (\<exists>U. reductionUpdates (union_set_union E1 E2) scop = Inr U) \<longleftrightarrow>
              (\<exists>V1. reductionUpdates E1 scop = Inr V1) \<and> (\<exists>V2. reductionUpdates E2 scop = Inr V2))
       \<and> (\<forall>D'. mset D' = mset D1 \<longrightarrow>
              (\<exists>U'. reductionUpdates D' scop = Inr U' \<and> instances U' = instances U1))"
proof -
  have ok1: "\<forall>i \<in> tuple_id ` set D1. \<exists>st. halide_statements scop i = Some st \<and> provide_shape st"
    using assms(1) reductionUpdates_returns[of D1 scop] by blast
  have ok2: "\<forall>i \<in> tuple_id ` set D2. \<exists>st. halide_statements scop i = Some st \<and> provide_shape st"
    using assms(2) reductionUpdates_returns[of D2 scop] by blast
  from ok1 ok2 obtain U where U: "reductionUpdates (union_set_union D1 D2) scop = Inr U"
    using reductionUpdates_returns[of "union_set_union D1 D2" scop]
    unfolding tuple_ids_union by blast
  have "instances U = instances U1 \<union> instances U2"
    unfolding reductionUpdates_instances[OF U] reductionUpdates_instances[OF assms(1)]
      reductionUpdates_instances[OF assms(2)] instances_union
    by blast
  with U have union: "\<exists>U. reductionUpdates (union_set_union D1 D2) scop = Inr U
              \<and> instances U = instances U1 \<union> instances U2" by blast
  have order: "\<exists>U'. reductionUpdates D' scop = Inr U' \<and> instances U' = instances U1"
    if "mset D' = mset D1" for D'
  proof -
    from that have sets: "set D' = set D1" by (rule mset_eq_setD)
    with ok1 obtain U' where U': "reductionUpdates D' scop = Inr U'"
      using reductionUpdates_returns[of D' scop] by auto
    have "instances D' = instances D1"
      by (simp add: instances_def sets)
    then have "instances U' = instances U1"
      unfolding reductionUpdates_instances[OF U'] reductionUpdates_instances[OF assms(1)]
      by simp
    with U' show ?thesis by blast
  qed
  have returns: "(\<exists>U. reductionUpdates (union_set_union E1 E2) scop = Inr U) \<longleftrightarrow>
      (\<exists>V1. reductionUpdates E1 scop = Inr V1) \<and> (\<exists>V2. reductionUpdates E2 scop = Inr V2)"
    for E1 E2
    unfolding reductionUpdates_returns tuple_ids_union by blast
  from union order returns show ?thesis by (simp add: instances_union)
qed

theorem reductionUpdates_union_witness:
  "reductionUpdates [S_set] ex_scop = Inr [S_set]
   \<and> reductionUpdates [T_set] ex_scop = Inr []
   \<and> instances [S_set] \<inter> instances [T_set] = {}
   \<and> union_set_union [S_set] [T_set] = [S_set, T_set]
   \<and> reductionUpdates (union_set_union [S_set] [T_set]) ex_scop = Inr [S_set]
   \<and> instances [S_set] = instances [S_set] \<union> instances []
   \<and> mset [T_set, S_set] = mset [S_set, T_set]
   \<and> reductionUpdates [T_set, S_set] ex_scop = Inr [S_set]"
proof -
  have a: "reductionUpdates [S_set] ex_scop = Inr [S_set]"
    and b: "reductionUpdates [T_set] ex_scop = Inr []"
    and c: "reductionUpdates [T_set, S_set] ex_scop = Inr [S_set]"
    by (simp_all add: reductionUpdates_def isReductionUpdateId_def isSupportedReduction_def
         S_id_def T_id_def R_id_def sum_update_def prod_update_def S_set_def T_set_def
        ex_scop_def)
  have u: "union_set_union [S_set] [T_set] = [S_set, T_set]"
    by (simp add: union_set_union_def S_id_def T_id_def R_id_def sum_update_def prod_update_def S_set_def T_set_def
        ex_scop_def)
  have d: "instances [S_set] \<inter> instances [T_set] = {}"
    by (auto simp: instances_Cons S_id_def T_id_def R_id_def sum_update_def prod_update_def S_set_def T_set_def
        ex_scop_def)
  from reductionUpdates_union[OF a b] a b c u d ex_run show ?thesis
    by (simp add: add.commute)
qed

text \<open>
  Claim C10. The supported-reduction test returns an answer exactly for a statement that is
  an assignment with at least one value whose first value, if a call, has at least one
  argument; for any other statement it ends in one of the two unguarded accesses, the null
  dereference or the read past the end. Lifted to \<open>reductionUpdates\<close>: when every identifier
  of the Domain is registered, the call returns exactly when every registered statement
  reached from the Domain has that shape.
\<close>

theorem isSupportedReduction_precondition:
  "((\<exists>b. isSupportedReduction st = Inr b) \<longleftrightarrow> provide_shape st)
   \<and> (\<not> provide_shape st \<longrightarrow>
        isSupportedReduction st = Inl NullDereference
        \<or> isSupportedReduction st = Inl OutOfBounds)
   \<and> ((\<forall>s \<in> set D. halide_statements scop (tuple_id s) \<noteq> None) \<longrightarrow>
        ((\<exists>U. reductionUpdates D scop = Inr U) \<longleftrightarrow>
         (\<forall>s \<in> set D. \<forall>st. halide_statements scop (tuple_id s) = Some st
              \<longrightarrow> provide_shape st)))"
proof -
  have ret: "(\<exists>b. isSupportedReduction st = Inr b) \<longleftrightarrow> provide_shape st"
    by (rule isSupportedReduction_returns)
  have ub: "isSupportedReduction st = Inl NullDereference
      \<or> isSupportedReduction st = Inl OutOfBounds"
    if "\<not> provide_shape st"
  proof (cases "isSupportedReduction st")
    case (Inl e)
    then show ?thesis
      by (auto simp: isSupportedReduction_def split: option.splits list.splits if_splits)
  next
    case (Inr b)
    with that ret show ?thesis by blast
  qed
  have lift: "(\<exists>U. reductionUpdates D scop = Inr U) \<longleftrightarrow>
         (\<forall>s \<in> set D. \<forall>st. halide_statements scop (tuple_id s) = Some st
              \<longrightarrow> provide_shape st)"
    if "\<forall>s \<in> set D. halide_statements scop (tuple_id s) \<noteq> None"
    unfolding reductionUpdates_returns using that by fastforce
  from ret ub lift show ?thesis by blast
qed

theorem isSupportedReduction_precondition_witness:
  "provide_shape (Stmt_at 1 sum_update)
   \<and> isSupportedReduction (Stmt_at 1 sum_update) = Inr True
   \<and> \<not> provide_shape (Stmt_at 5 (Evaluate (IntImm 0)))
   \<and> isSupportedReduction (Stmt_at 5 (Evaluate (IntImm 0))) = Inl NullDereference
   \<and> isSupportedReduction (Stmt_at 6 (Provide ''O'' [] [])) = Inl OutOfBounds
   \<and> isSupportedReduction (Stmt_at 7 (Provide ''O'' [Call ''f'' []] [])) = Inl OutOfBounds
   \<and> halide_statements ex_scop (tuple_id S_set) \<noteq> None
   \<and> halide_statements ex_scop (tuple_id T_set) \<noteq> None
   \<and> (\<exists>U. reductionUpdates [S_set, T_set] ex_scop = Inr U)
   \<and> halide_statements ex_scop_not_provide (tuple_id S_set) \<noteq> None
   \<and> (\<nexists>U. reductionUpdates [S_set] ex_scop_not_provide = Inr U)"
proof -
  have reg: "\<forall>s \<in> set [S_set, T_set]. halide_statements ex_scop (tuple_id s) \<noteq> None"
    and shape: "\<forall>s \<in> set [S_set, T_set]. \<forall>st.
       halide_statements ex_scop (tuple_id s) = Some st \<longrightarrow> provide_shape st"
    and reg': "\<forall>s \<in> set [S_set]. halide_statements ex_scop_not_provide (tuple_id s) \<noteq> None"
    and shape': "\<not> (\<forall>s \<in> set [S_set]. \<forall>st.
       halide_statements ex_scop_not_provide (tuple_id s) = Some st \<longrightarrow> provide_shape st)"
    by (simp_all add: S_id_def T_id_def R_id_def sum_update_def prod_update_def S_set_def T_set_def
        ex_scop_def ex_scop_not_provide_def)
  from isSupportedReduction_precondition[of "Stmt_at 1 sum_update" "[S_set, T_set]" ex_scop]
    reg shape
  have "\<exists>U. reductionUpdates [S_set, T_set] ex_scop = Inr U" by blast
  moreover from isSupportedReduction_precondition
      [of "Stmt_at 5 (Evaluate (IntImm 0))" "[S_set]" ex_scop_not_provide] reg' shape'
  have "\<nexists>U. reductionUpdates [S_set] ex_scop_not_provide = Inr U" by blast
  moreover have "provide_shape (Stmt_at 1 sum_update)"
    "isSupportedReduction (Stmt_at 1 sum_update) = Inr True"
    "\<not> provide_shape (Stmt_at 5 (Evaluate (IntImm 0)))"
    "isSupportedReduction (Stmt_at 5 (Evaluate (IntImm 0))) = Inl NullDereference"
    "isSupportedReduction (Stmt_at 6 (Provide ''O'' [] [])) = Inl OutOfBounds"
    "isSupportedReduction (Stmt_at 7 (Provide ''O'' [Call ''f'' []] [])) = Inl OutOfBounds"
    by (simp_all add: isSupportedReduction_def S_id_def T_id_def R_id_def sum_update_def prod_update_def S_set_def T_set_def
        ex_scop_def ex_scop_not_provide_def)
  moreover from reg reg' have "halide_statements ex_scop (tuple_id S_set) \<noteq> None"
    "halide_statements ex_scop (tuple_id T_set) \<noteq> None"
    "halide_statements ex_scop_not_provide (tuple_id S_set) \<noteq> None"
    by simp_all
  ultimately show ?thesis by simp
qed

end
